theory Spec2Isabelle
  imports Complex_Main "HOL-Library.Option_ord" "HOL-Library.Multiset"
begin

section \<open>Python values used by youtube\_down.py\<close>

text \<open>
  The collaborator (yt-dlp) hands the program Python dicts. A key of such a dict is
  absent, present with the value \<^verbatim>\<open>None\<close>, or present with a value of the type yt-dlp
  documents for it (\<^verbatim>\<open>height\<close>, \<^verbatim>\<open>fps\<close>, \<^verbatim>\<open>filesize\<close>, \<^verbatim>\<open>duration\<close>: int;
  \<^verbatim>\<open>abr\<close>: float; the others: str). A finite float is modelled by its exact rational
  value: the program only tests it for zero, compares it and truncates it with
  \<^verbatim>\<open>int()\<close>, all of which are exact on the rational value. NaN and the infinities are not
  modelled.
\<close>

datatype 'a field = Absent | PyNone | Val 'a

text \<open>\<^verbatim>\<open>d.get(k)\<close>: the result \<open>None\<close> is Python's \<^verbatim>\<open>None\<close>.\<close>

fun get :: "'a field \<Rightarrow> 'a option" where
  "get Absent = None"
| "get PyNone = None"
| "get (Val v) = Some v"

text \<open>\<^verbatim>\<open>d.get(k, default)\<close>: the default replaces an absent key only.\<close>

fun get_or :: "'a field \<Rightarrow> 'a \<Rightarrow> 'a option" where
  "get_or Absent d = Some d"
| "get_or PyNone d = None"
| "get_or (Val v) d = Some v"

text \<open>Truth value of \<^verbatim>\<open>None\<close> or a number: \<^verbatim>\<open>None\<close> and zero are false.\<close>

fun truthy :: "'a::zero option \<Rightarrow> bool" where
  "truthy None = False"
| "truthy (Some n) = (n \<noteq> 0)"

datatype py_exc = KeyError string | TypeError string | IndexError

text \<open>\<^verbatim>\<open>str(e)\<close>: a KeyError prints the repr of its key.\<close>

fun exc_str :: "py_exc \<Rightarrow> string" where
  "exc_str (KeyError k) = [CHR 0x27] @ k @ [CHR 0x27]"
| "exc_str (TypeError m) = m"
| "exc_str IndexError = ''list index out of range''"

subsection \<open>Formatting\<close>

definition digit_char :: "nat \<Rightarrow> char" where
  "digit_char d = ''0123456789'' ! d"

fun digits :: "nat \<Rightarrow> string" where
  "digits n = (if n < 10 then [digit_char n] else digits (n div 10) @ [digit_char (n mod 10)])"

declare digits.simps [simp del]

text \<open>\<^verbatim>\<open>str(i)\<close> and \<^verbatim>\<open>f"{i}"\<close> for an int.\<close>

definition str_int :: "int \<Rightarrow> string" where
  "str_int i = (if i < 0 then CHR ''-'' # digits (nat (- i)) else digits (nat i))"

text \<open>\<^verbatim>\<open>f"{i:02d}"\<close>: zero-padded to width 2, the sign counting in the width.\<close>

definition fmt_02d :: "int \<Rightarrow> string" where
  "fmt_02d i =
     (if i < 0 then CHR ''-'' # replicate (1 - length (digits (nat (- i)))) CHR ''0'' @ digits (nat (- i))
      else replicate (2 - length (digits (nat i))) CHR ''0'' @ digits (nat i))"

text \<open>\<^verbatim>\<open>f"{s}"\<close> for a str or \<^verbatim>\<open>None\<close>.\<close>

fun str_opt :: "string option \<Rightarrow> string" where
  "str_opt None = ''None''"
| "str_opt (Some s) = s"

text \<open>\<^verbatim>\<open>int(x)\<close> for a float: truncation towards zero.\<close>

definition int_of_float :: "rat \<Rightarrow> int" where
  "int_of_float x = (if 0 \<le> x then \<lfloor>x\<rfloor> else \<lceil>x\<rceil>)"

section \<open>VideoInfoThread\<close>

record raw_format =
  format_id :: "string option"
  vcodec :: "string field"
  acodec :: "string field"
  height :: "int field"
  fps :: "int field"
  abr :: "rat field"
  ext :: "string field"
  filesize :: "int field"

text \<open>
  \<open>format_id\<close> is read by subscript: \<open>None\<close> is the absent key (KeyError); yt-dlp gives
  a present key a str.
\<close>

record raw_info =
  info_formats :: "raw_format list field"
  info_title :: "string field"
  info_duration :: "int field"

text \<open>An element of \<^verbatim>\<open>video_formats\<close>/\<^verbatim>\<open>audio_formats\<close>: \<^verbatim>\<open>(quality_str, format_id, fmt)\<close>.\<close>

type_synonym entry = "string \<times> string \<times> raw_format"

definition label :: "entry \<Rightarrow> string" where
  "label x = fst x"

definition entry_id :: "entry \<Rightarrow> string" where
  "entry_id x = fst (snd x)"

definition raw :: "entry \<Rightarrow> raw_format" where
  "raw x = snd (snd x)"

text \<open>\<^verbatim>\<open>size_str = f" (~{filesize // (1024*1024)}MB)" if filesize else ""\<close>\<close>

definition size_str :: "int option \<Rightarrow> string" where
  "size_str sz =
     (case sz of
        Some n \<Rightarrow> (if n \<noteq> 0 then '' (~'' @ str_int (n div (1024 * 1024)) @ ''MB)'' else '''')
      | None \<Rightarrow> '''')"

text \<open>The quality string of the first branch (lines 66--69), for a true \<^verbatim>\<open>height\<close>.\<close>

definition video_quality_str :: "raw_format \<Rightarrow> int \<Rightarrow> string" where
  "video_quality_str fmt h =
     (let fps' = get_or (fps fmt) 0;
          ext' = get_or (ext fmt) ''unknown'';
          filesize' = get (filesize fmt);
          quality_str = str_int h @ ''p'';
          quality_str = (case fps' of
                           Some f \<Rightarrow> (if f \<noteq> 0 \<and> f > 30 then quality_str @ str_int f else quality_str)
                         | None \<Rightarrow> quality_str)
      in quality_str @ '' ('' @ str_opt ext' @ '')'' @ size_str filesize')"

text \<open>The quality string of the second branch (line 79), for a true \<^verbatim>\<open>abr\<close>.\<close>

definition audio_quality_str :: "raw_format \<Rightarrow> rat \<Rightarrow> string" where
  "audio_quality_str fmt b =
     (let ext' = get_or (ext fmt) ''unknown'';
          filesize' = get (filesize fmt)
      in str_int (int_of_float b) @ ''kbps ('' @ str_opt ext' @ '')'' @ size_str filesize')"

text \<open>
  The body of \<^verbatim>\<open>for fmt in formats\<close> on the two lists built so far. \<^verbatim>\<open>fmt['format_id']\<close>
  raises KeyError when the key is absent, which leaves the loop.
\<close>

definition process_fmt ::
  "raw_format \<Rightarrow> entry list \<times> entry list \<Rightarrow> py_exc + entry list \<times> entry list" where
  "process_fmt fmt acc =
     (case acc of (vfs, afs) \<Rightarrow>
        if get (vcodec fmt) \<noteq> Some ''none'' \<and> get (acodec fmt) \<noteq> Some ''none'' then
          (case get_or (height fmt) 0 of
             Some h \<Rightarrow>
               (if h \<noteq> 0 then
                  (case format_id fmt of
                     None \<Rightarrow> Inl (KeyError ''format_id'')
                   | Some fid \<Rightarrow>
                       Inr (vfs @ [(video_quality_str fmt h, fid, fmt)], afs))
                else Inr acc)
           | None \<Rightarrow> Inr acc)
        else if get (acodec fmt) \<noteq> Some ''none'' \<and> get (vcodec fmt) = Some ''none'' then
          (case get_or (abr fmt) 0 of
             Some b \<Rightarrow>
               (if b \<noteq> 0 then
                  (case format_id fmt of
                     None \<Rightarrow> Inl (KeyError ''format_id'')
                   | Some fid \<Rightarrow>
                       Inr (vfs, afs @ [(audio_quality_str fmt b, fid, fmt)]))
                else Inr acc)
           | None \<Rightarrow> Inr acc)
        else Inr acc)"

fun process_formats ::
  "raw_format list \<Rightarrow> entry list \<times> entry list \<Rightarrow> py_exc + entry list \<times> entry list" where
  "process_formats [] acc = Inr acc"
| "process_formats (fmt # fmts) acc =
     (case process_fmt fmt acc of
        Inl e \<Rightarrow> Inl e
      | Inr acc' \<Rightarrow> process_formats fmts acc')"

text \<open>
  \<^verbatim>\<open>xs.sort(key=k, reverse=True)\<close>. CPython reverses the list, sorts it stably in
  ascending key order and reverses it again. A key \<^verbatim>\<open>None\<close> cannot be compared
  (TypeError) as soon as the list has two elements; the key type orders \<open>None\<close> below
  every \<open>Some\<close>, which the branch that sorts never uses.
\<close>

definition sort_reverse :: "('a \<Rightarrow> 'k::linorder option) \<Rightarrow> 'a list \<Rightarrow> py_exc + 'a list" where
  "sort_reverse k xs =
     (if 2 \<le> length xs \<and> (\<exists>x \<in> set xs. k x = None)
      then Inl (TypeError ([CHR 0x27, CHR ''<'', CHR 0x27] @ '' not supported between instances''))
      else Inr (rev (sort_key k (rev xs))))"

definition height_key :: "entry \<Rightarrow> int option" where
  "height_key x = get_or (height (raw x)) 0"

definition abr_key :: "entry \<Rightarrow> rat option" where
  "abr_key x = get_or (abr (raw x)) 0"

text \<open>\<^verbatim>\<open>duration_str = f"{duration // 60}:{duration % 60:02d}" if duration else "Unknown"\<close>\<close>

definition duration_str :: "int option \<Rightarrow> string" where
  "duration_str dur =
     (case dur of
        Some d \<Rightarrow> (if d \<noteq> 0 then str_int (d div 60) @ '':'' @ fmt_02d (d mod 60) else ''Unknown'')
      | None \<Rightarrow> ''Unknown'')"

record video_result =
  title :: "string option"
  duration :: string
  video_formats :: "entry list"
  audio_formats :: "entry list"

text \<open>
  Lines 52--95: everything after the \<^verbatim>\<open>None\<close> check. \<^verbatim>\<open>for fmt in None\<close> raises
  TypeError.
\<close>

definition process_info :: "raw_info \<Rightarrow> py_exc + video_result" where
  "process_info info =
     (case get_or (info_formats info) [] of
        None \<Rightarrow> Inl (TypeError ([CHR 0x27] @ ''NoneType'' @ [CHR 0x27] @ '' object is not iterable''))
      | Some formats \<Rightarrow>
          (case process_formats formats ([], []) of
             Inl e \<Rightarrow> Inl e
           | Inr (vfs, afs) \<Rightarrow>
               (case sort_reverse height_key vfs of
                  Inl e \<Rightarrow> Inl e
                | Inr vfs' \<Rightarrow>
                    (case sort_reverse abr_key afs of
                       Inl e \<Rightarrow> Inl e
                     | Inr afs' \<Rightarrow>
                         Inr \<lparr>title = get_or (info_title info) ''Unknown Title'',
                              duration = duration_str (get_or (info_duration info) 0),
                              video_formats = vfs',
                              audio_formats = afs'\<rparr>))))"

text \<open>What \<^verbatim>\<open>ydl.extract_info(url, download=False)\<close> does.\<close>

datatype probe_outcome = ProbeRaises string | ProbeNone | ProbeInfo raw_info

text \<open>The signal the thread emits: \<^verbatim>\<open>finished\<close> or \<^verbatim>\<open>error\<close>.\<close>

datatype info_signal = InfoFinished video_result | InfoError string

definition VideoInfoThread_run :: "probe_outcome \<Rightarrow> info_signal" where
  "VideoInfoThread_run p =
     (case p of
        ProbeRaises m \<Rightarrow> InfoError (''Error fetching video info: '' @ m)
      | ProbeNone \<Rightarrow> InfoError ''Failed to extract video information''
      | ProbeInfo info \<Rightarrow>
          (case process_info info of
             Inl e \<Rightarrow> InfoError (''Error fetching video info: '' @ exc_str e)
           | Inr result \<Rightarrow> InfoFinished result))"

subsection \<open>Which descriptors the loop keeps\<close>

definition included_video :: "raw_format \<Rightarrow> bool" where
  "included_video fmt \<longleftrightarrow>
     get (vcodec fmt) \<noteq> Some ''none'' \<and> get (acodec fmt) \<noteq> Some ''none'' \<and>
     truthy (get_or (height fmt) 0)"

definition included_audio :: "raw_format \<Rightarrow> bool" where
  "included_audio fmt \<longleftrightarrow>
     get (acodec fmt) \<noteq> Some ''none'' \<and> get (vcodec fmt) = Some ''none'' \<and>
     truthy (get_or (abr fmt) 0)"

text \<open>What the loop stores for a kept descriptor.\<close>

definition video_entry_ok :: "entry \<Rightarrow> bool" where
  "video_entry_ok x \<longleftrightarrow>
     (case get_or (height (raw x)) 0 of
        Some h \<Rightarrow> h \<noteq> 0 \<and> label x = video_quality_str (raw x) h
      | None \<Rightarrow> False) \<and>
     format_id (raw x) = Some (entry_id x) \<and> included_video (raw x)"

definition audio_entry_ok :: "entry \<Rightarrow> bool" where
  "audio_entry_ok x \<longleftrightarrow>
     (case get_or (abr (raw x)) 0 of
        Some b \<Rightarrow> b \<noteq> 0 \<and> label x = audio_quality_str (raw x) b
      | None \<Rightarrow> False) \<and>
     format_id (raw x) = Some (entry_id x) \<and> included_audio (raw x)"

section \<open>DownloadThread\<close>

text \<open>
  The dict yt-dlp passes to a progress hook. \<open>status\<close> and \<open>filename\<close> are read by
  subscript (\<open>None\<close>: the key is absent, KeyError); \<^verbatim>\<open>_percent_str\<close> and
  \<^verbatim>\<open>_speed_str\<close> are read with \<^verbatim>\<open>get\<close>.
\<close>

record progress_dict =
  status :: "string option"
  percent_str :: "string field"
  speed_str :: "string field"
  filename :: "string option"

text \<open>\<^verbatim>\<open>os.path.basename\<close> (posixpath): what follows the last slash.\<close>

definition basename :: "string \<Rightarrow> string" where
  "basename p = rev (takeWhile (\<lambda>c. c \<noteq> CHR ''/'') (rev p))"

text \<open>The hook returns the messages it emits on \<^verbatim>\<open>progress\<close>, or raises.\<close>

definition progress_hook :: "progress_dict \<Rightarrow> py_exc + string list" where
  "progress_hook d =
     (case status d of
        None \<Rightarrow> Inl (KeyError ''status'')
      | Some s \<Rightarrow>
          if s = ''downloading'' then
            (let percent = get_or (percent_str d) ''N/A'';
                 speed = get_or (speed_str d) ''N/A''
             in Inr [''Downloading... '' @ str_opt percent @ '' at '' @ str_opt speed])
          else if s = ''finished'' then
            (case filename d of
               None \<Rightarrow> Inl (KeyError ''filename'')
             | Some fn \<Rightarrow> Inr [''Download finished: '' @ basename fn])
          else Inr [])"

datatype download_signal = Progress string | Finished string | Failed string

text \<open>
  The call \<^verbatim>\<open>ydl.download([self.url])\<close>, with the constructor before it, is the
  collaborator's: \<open>calls\<close> are the dicts it passed to the hook during the call, in
  order, and the outcome is how the call ended. Whether an exception leaving the hook
  ends the call is the collaborator's choice and part of that behaviour; a hook that
  raised has emitted nothing.
\<close>

datatype download_outcome = Returns | Raises string

definition hook_emits :: "progress_dict \<Rightarrow> download_signal list" where
  "hook_emits d = (case progress_hook d of Inl e \<Rightarrow> [] | Inr ms \<Rightarrow> map Progress ms)"

definition DownloadThread_run :: "progress_dict list \<Rightarrow> download_outcome \<Rightarrow> download_signal list" where
  "DownloadThread_run calls outcome =
     concat (map hook_emits calls) @
     (case outcome of
        Returns \<Rightarrow> [Finished ''Download completed successfully!'']
      | Raises m \<Rightarrow> [Failed (''Download failed: '' @ m)])"

section \<open>YouTubeDownloader\<close>

record postprocessor =
  key :: string
  preferredcodec :: string
  preferredquality :: string

text \<open>
  The options dict; \<open>None\<close> is a key that is not set. The \<^verbatim>\<open>ssl_context\<close> object and
  the hook list the thread adds are left out.
\<close>

record ydl_opts =
  no_warnings :: bool
  extract_flat :: bool
  writesubtitles :: bool
  writeautomaticsub :: bool
  ignoreerrors :: bool
  quiet :: bool
  outtmpl :: "string option"
  format :: "string option"
  merge_output_format :: "string option"
  postprocessors :: "postprocessor list option"

definition ydl_opts_base :: ydl_opts where
  "ydl_opts_base = \<lparr>no_warnings = False, extract_flat = False, writesubtitles = False,
     writeautomaticsub = False, ignoreerrors = True, quiet = True, outtmpl = None,
     format = None, merge_output_format = None, postprocessors = None\<rparr>"

datatype dialog = Warning string string | Critical string string | Information string string

text \<open>
  The window: the widgets' contents, the attributes of \<^verbatim>\<open>self\<close>, the message boxes
  shown so far. Three fields are not in the source and record the threads: whether one
  has been started and has not delivered its last signal yet, and how many were started.
  A button is \<open>True\<close> when enabled; a row is \<^verbatim>\<open>currentRow()\<close>, \<open>-1\<close> for none.
\<close>

record downloader =
  url_entry :: string
  save_entry :: string
  radio_video :: bool
  video_list :: "string list"
  video_row :: int
  audio_list :: "string list"
  audio_row :: int
  self_video_formats :: "entry list"
  self_audio_formats :: "entry list"
  fetch_btn :: bool
  download_btn :: bool
  status_label :: string
  progress_label :: string
  log_text :: "string list"
  video_thread :: "string option"
  download_thread :: "(string \<times> string \<times> ydl_opts) option"
  dialogs :: "dialog list"
  resolve_in_flight :: bool
  download_in_flight :: bool
  threads_started :: nat

text \<open>
  What the handlers read from outside the window: \<^verbatim>\<open>validate_url\<close> (four regular
  expressions on the url, a pure function the properties below do not depend on),
  \<^verbatim>\<open>os.path.exists\<close> and the home directory.
\<close>

record env =
  validate_url :: "string \<Rightarrow> bool"
  path_exists :: "string \<Rightarrow> bool"
  home_downloads :: string

definition init :: "env \<Rightarrow> downloader" where
  "init e = \<lparr>url_entry = '''', save_entry = home_downloads e, radio_video = True,
     video_list = [], video_row = -1, audio_list = [], audio_row = -1,
     self_video_formats = [], self_audio_formats = [], fetch_btn = True, download_btn = True,
     status_label = ''Ready'', progress_label = '''', log_text = [],
     video_thread = None, download_thread = None, dialogs = [],
     resolve_in_flight = False, download_in_flight = False, threads_started = 0\<rparr>"

text \<open>\<^verbatim>\<open>str.strip()\<close>, on the ASCII white space.\<close>

definition is_space :: "char \<Rightarrow> bool" where
  "is_space c \<longleftrightarrow> c \<in> set [CHR 0x09, CHR 0x0A, CHR 0x0B, CHR 0x0C, CHR 0x0D,
     CHR 0x1C, CHR 0x1D, CHR 0x1E, CHR 0x1F, CHR 0x20]"

definition strip :: "string \<Rightarrow> string" where
  "strip s = rev (dropWhile is_space (rev (dropWhile is_space s)))"

text \<open>\<^verbatim>\<open>os.path.join(a, b)\<close> (posixpath).\<close>

definition path_join :: "string \<Rightarrow> string \<Rightarrow> string" where
  "path_join a b =
     (if b \<noteq> [] \<and> hd b = CHR ''/'' then b
      else if a = [] \<or> last a = CHR ''/'' then a @ b
      else a @ ''/'' @ b)"

text \<open>\<^verbatim>\<open>xs[i]\<close>: a negative index counts from the end.\<close>

definition py_index :: "'a list \<Rightarrow> int \<Rightarrow> py_exc + 'a" where
  "py_index xs i =
     (if 0 \<le> i \<and> i < int (length xs) then Inr (xs ! nat i)
      else if i < 0 \<and> - int (length xs) \<le> i then Inr (xs ! nat (int (length xs) + i))
      else Inl IndexError)"

definition warning :: "downloader \<Rightarrow> string \<Rightarrow> string \<Rightarrow> downloader" where
  "warning st t m = st\<lparr>dialogs := dialogs st @ [Warning t m]\<rparr>"

definition log_message :: "downloader \<Rightarrow> string \<Rightarrow> downloader" where
  "log_message st m = st\<lparr>log_text := log_text st @ [m]\<rparr>"

definition fetch_video_info :: "env \<Rightarrow> downloader \<Rightarrow> downloader" where
  "fetch_video_info e st =
     (let url = strip (url_entry st) in
      if url = [] then warning st ''Error'' ''Please enter a YouTube URL''
      else if \<not> validate_url e url then warning st ''Error'' ''Please enter a valid YouTube URL''
      else st\<lparr>fetch_btn := False,
              status_label := ''Fetching video information...'',
              progress_label := ''Working...'',
              video_list := [], video_row := -1,
              audio_list := [], audio_row := -1,
              self_video_formats := [], self_audio_formats := [],
              video_thread := Some url,
              resolve_in_flight := True,
              threads_started := Suc (threads_started st)\<rparr>)"

text \<open>\<^verbatim>\<open>addItem\<close> appends a row and leaves the current row; \<^verbatim>\<open>setCurrentRow(0)\<close> sets it.\<close>

definition on_video_info_received :: "downloader \<Rightarrow> video_result \<Rightarrow> downloader" where
  "on_video_info_received st info =
     (let st = st\<lparr>fetch_btn := True, status_label := ''Video info fetched'',
                   progress_label := ''Ready''\<rparr>;
          st = log_message st (''Title: '' @ str_opt (title info));
          st = log_message st (''Duration: '' @ duration info);
          st = st\<lparr>self_video_formats := video_formats info,
                   self_audio_formats := audio_formats info\<rparr>;
          st = st\<lparr>video_list := video_list st @ map label (self_video_formats st)\<rparr>;
          st = st\<lparr>audio_list := audio_list st @ map label (self_audio_formats st)\<rparr>;
          st = (if length (video_list st) > 0 then st\<lparr>video_row := 0\<rparr> else st);
          st = (if length (audio_list st) > 0 then st\<lparr>audio_row := 0\<rparr> else st)
      in st\<lparr>download_btn := True\<rparr>)"

definition on_video_info_error :: "downloader \<Rightarrow> string \<Rightarrow> downloader" where
  "on_video_info_error st error_msg =
     (let st = st\<lparr>fetch_btn := True, status_label := ''Error'', progress_label := ''''\<rparr>;
          st = log_message st (''ERROR: '' @ error_msg)
      in st\<lparr>dialogs := dialogs st @ [Critical ''Error'' error_msg]\<rparr>)"

text \<open>\<open>folder\<close> is what the directory dialog returned, empty when cancelled.\<close>

definition browse_folder :: "downloader \<Rightarrow> string \<Rightarrow> downloader" where
  "browse_folder st folder = (if folder \<noteq> [] then st\<lparr>save_entry := folder\<rparr> else st)"

text \<open>
  \<^verbatim>\<open>start_download\<close>. An IndexError of \<^verbatim>\<open>self.video_formats[video_row]\<close> is not caught
  and leaves the slot.
\<close>

definition start_download :: "env \<Rightarrow> downloader \<Rightarrow> py_exc + downloader" where
  "start_download e st =
     (let url = strip (url_entry st);
          save_path = strip (save_entry st)
      in
      if url = [] then Inr (warning st ''Error'' ''Please enter a YouTube URL'')
      else if save_path = [] \<or> \<not> path_exists e save_path then
        Inr (warning st ''Error'' ''Please select a valid save location'')
      else if radio_video st \<and> video_row st < 0 then
        Inr (warning st ''Error'' ''Please select a video quality'')
      else if radio_video st \<and> audio_row st < 0 then
        Inr (warning st ''Error'' ''Please select an audio quality'')
      else if \<not> radio_video st \<and> audio_row st < 0 then
        Inr (warning st ''Error'' ''Please select an audio quality'')
      else
        (let opts = ydl_opts_base\<lparr>outtmpl := Some (path_join save_path ''%(title)s.%(ext)s'')\<rparr>;
             opts' =
               (if radio_video st then
                  (case py_index (self_video_formats st) (video_row st) of
                     Inl x \<Rightarrow> Inl x
                   | Inr v \<Rightarrow>
                       (case py_index (self_audio_formats st) (audio_row st) of
                          Inl x \<Rightarrow> Inl x
                        | Inr a \<Rightarrow>
                            Inr (opts\<lparr>format := Some (entry_id v @ ''+'' @ entry_id a @ ''/best''),
                                       merge_output_format := Some ''mp4''\<rparr>)))
                else
                  (case py_index (self_audio_formats st) (audio_row st) of
                     Inl x \<Rightarrow> Inl x
                   | Inr a \<Rightarrow>
                       Inr (opts\<lparr>format := Some (entry_id a),
                                  postprocessors := Some [\<lparr>key = ''FFmpegExtractAudio'',
                                    preferredcodec = ''mp3'', preferredquality = ''192''\<rparr>]\<rparr>)))
         in case opts' of
              Inl x \<Rightarrow> Inl x
            | Inr opts'' \<Rightarrow>
                Inr (st\<lparr>download_btn := False, fetch_btn := False,
                         status_label := ''Downloading...'',
                         progress_label := ''Starting download...'',
                         download_thread := Some (url, save_path, opts''),
                         download_in_flight := True,
                         threads_started := Suc (threads_started st)\<rparr>)))"

definition on_download_progress :: "downloader \<Rightarrow> string \<Rightarrow> downloader" where
  "on_download_progress st message = log_message (st\<lparr>progress_label := message\<rparr>) message"

definition on_download_finished :: "downloader \<Rightarrow> string \<Rightarrow> downloader" where
  "on_download_finished st message =
     (let st = st\<lparr>download_btn := True, fetch_btn := True,
                   status_label := ''Download completed'', progress_label := ''Done''\<rparr>;
          st = log_message st message
      in st\<lparr>dialogs := dialogs st @ [Information ''Success'' message]\<rparr>)"

definition on_download_error :: "downloader \<Rightarrow> string \<Rightarrow> downloader" where
  "on_download_error st error_msg =
     (let st = st\<lparr>download_btn := True, fetch_btn := True,
                   status_label := ''Download failed'', progress_label := ''Failed''\<rparr>;
          st = log_message st (''ERROR: '' @ error_msg)
      in st\<lparr>dialogs := dialogs st @ [Critical ''Download Error'' error_msg]\<rparr>)"

subsection \<open>The event loop\<close>

text \<open>
  What reaches the window: the user's actions on the widgets and the signals of the two
  threads. Qt delivers no click from a disabled button; a row can be selected only where
  the list has one; a thread's signal arrives only while that thread is in flight, and
  its last signal ends that.
\<close>

datatype event =
    EditUrl string
  | ClickFetch
  | ChooseVideo
  | ChooseAudio
  | SelectVideoRow nat
  | SelectAudioRow nat
  | ClickBrowse string
  | ClickDownload
  | InfoSignal info_signal
  | DownloadSignal download_signal

definition step :: "env \<Rightarrow> downloader \<Rightarrow> event \<Rightarrow> py_exc + downloader" where
  "step e st ev =
     (case ev of
        EditUrl u \<Rightarrow> Inr (st\<lparr>url_entry := u\<rparr>)
      | ClickFetch \<Rightarrow> Inr (if fetch_btn st then fetch_video_info e st else st)
      | ChooseVideo \<Rightarrow> Inr (st\<lparr>radio_video := True\<rparr>)
      | ChooseAudio \<Rightarrow> Inr (st\<lparr>radio_video := False\<rparr>)
      | SelectVideoRow i \<Rightarrow>
          Inr (if i < length (video_list st) then st\<lparr>video_row := int i\<rparr> else st)
      | SelectAudioRow i \<Rightarrow>
          Inr (if i < length (audio_list st) then st\<lparr>audio_row := int i\<rparr> else st)
      | ClickBrowse folder \<Rightarrow> Inr (browse_folder st folder)
      | ClickDownload \<Rightarrow> (if download_btn st then start_download e st else Inr st)
      | InfoSignal s \<Rightarrow>
          Inr (if resolve_in_flight st then
                 (case s of
                    InfoFinished info \<Rightarrow> on_video_info_received st info
                  | InfoError m \<Rightarrow> on_video_info_error st m)\<lparr>resolve_in_flight := False\<rparr>
               else st)
      | DownloadSignal s \<Rightarrow>
          Inr (if download_in_flight st then
                 (case s of
                    Progress m \<Rightarrow> on_download_progress st m
                  | Finished m \<Rightarrow> (on_download_finished st m)\<lparr>download_in_flight := False\<rparr>
                  | Failed m \<Rightarrow> (on_download_error st m)\<lparr>download_in_flight := False\<rparr>)
               else st))"

fun steps :: "env \<Rightarrow> downloader \<Rightarrow> event list \<Rightarrow> py_exc + downloader" where
  "steps e st [] = Inr st"
| "steps e st (ev # evs) =
     (case step e st ev of
        Inl x \<Rightarrow> Inl x
      | Inr st' \<Rightarrow> steps e st' evs)"

text \<open>What holds of the window after any events, from the initial one.\<close>

definition inv :: "downloader \<Rightarrow> bool" where
  "inv st \<longleftrightarrow>
     (resolve_in_flight st \<longrightarrow>
        \<not> fetch_btn st \<and> \<not> download_in_flight st \<and>
        video_list st = [] \<and> audio_list st = []) \<and>
     (download_in_flight st \<longrightarrow> \<not> fetch_btn st) \<and>
     download_btn st = (\<not> download_in_flight st) \<and>
     video_list st = map label (self_video_formats st) \<and>
     audio_list st = map label (self_audio_formats st) \<and>
     - 1 \<le> video_row st \<and> video_row st < int (length (video_list st)) \<and>
     - 1 \<le> audio_row st \<and> audio_row st < int (length (audio_list st))"

section \<open>The labels as the specification words them\<close>

text \<open>
  The size suffix of the specification, for a known size \<open>s\<close>:
  \<^verbatim>\<open>" (~<size/1MiB, integer>MB)"\<close>.
\<close>

definition spec_size_suffix :: "int option \<Rightarrow> string" where
  "spec_size_suffix s =
     (case s of Some n \<Rightarrow> '' (~'' @ str_int (n div 1048576) @ ''MB)'' | None \<Rightarrow> '''')"

text \<open>
  \<^verbatim>\<open>"<height>p"\<close>, the frame rate when it is above 30, \<^verbatim>\<open>" (<ext>)"\<close>, the size
  suffix.
\<close>

definition spec_video_label :: "int \<Rightarrow> int option \<Rightarrow> string \<Rightarrow> int option \<Rightarrow> string" where
  "spec_video_label h f e s =
     str_int h @ ''p'' @
     (case f of Some f' \<Rightarrow> (if f' > 30 then str_int f' else '''') | None \<Rightarrow> '''') @
     '' ('' @ e @ '')'' @ spec_size_suffix s"

text \<open>\<^verbatim>\<open>"<round(bitrate)>kbps (<ext>)"\<close> and the size suffix, as the specification has it.\<close>

definition spec_audio_label :: "rat \<Rightarrow> string \<Rightarrow> int option \<Rightarrow> string" where
  "spec_audio_label b e s =
     str_int (round b) @ ''kbps ('' @ e @ '')'' @ spec_size_suffix s"

text \<open>The same with the bitrate truncated towards zero, as \<^verbatim>\<open>int(abr)\<close> does.\<close>

definition trunc_audio_label :: "rat \<Rightarrow> string \<Rightarrow> int option \<Rightarrow> string" where
  "trunc_audio_label b e s =
     str_int (int_of_float b) @ ''kbps ('' @ e @ '')'' @ spec_size_suffix s"

text \<open>The size the label shows: a \<^verbatim>\<open>filesize\<close> that is present and not zero.\<close>

definition shown_size :: "raw_format \<Rightarrow> int option" where
  "shown_size fmt =
     (case get (filesize fmt) of Some n \<Rightarrow> (if n \<noteq> 0 then Some n else None) | None \<Rightarrow> None)"

text \<open>The extension the label shows.\<close>

definition shown_ext :: "raw_format \<Rightarrow> string" where
  "shown_ext fmt = str_opt (get_or (ext fmt) ''unknown'')"

section \<open>Concrete inputs\<close>

text \<open>
  The two descriptors of the specification's scenario, each with the format identifier
  every descriptor of the collaborator carries.
\<close>

definition scenario_video :: raw_format where
  "scenario_video = \<lparr>format_id = Some ''22'', vcodec = Val ''avc1'', acodec = Val ''aac'',
     height = Val 720, fps = Val 30, abr = Absent, ext = Val ''mp4'', filesize = Absent\<rparr>"

definition scenario_audio :: raw_format where
  "scenario_audio = \<lparr>format_id = Some ''140'', vcodec = Val ''none'', acodec = Val ''mp3'',
     height = Absent, fps = Absent, abr = Val 128, ext = Val ''mp3'', filesize = Absent\<rparr>"

definition scenario_info :: raw_info where
  "scenario_info = \<lparr>info_formats = Val [scenario_video, scenario_audio],
     info_title = Val ''T'', info_duration = Val 125\<rparr>"

definition scenario_result :: video_result where
  "scenario_result = \<lparr>title = Some ''T'', duration = ''2:05'',
     video_formats = [(''720p (mp4)'', ''22'', scenario_video)],
     audio_formats = [(''128kbps (mp3)'', ''140'', scenario_audio)]\<rparr>"

text \<open>A sound-only descriptor with a fractional bitrate, and one with a size of zero bytes.\<close>

definition fractional_audio :: raw_format where
  "fractional_audio = \<lparr>format_id = Some ''251'', vcodec = Val ''none'', acodec = Val ''opus'',
     height = Absent, fps = Absent, abr = Val (515 / 4), ext = Val ''webm'', filesize = Absent\<rparr>"

definition empty_audio :: raw_format where
  "empty_audio = \<lparr>format_id = Some ''139'', vcodec = Val ''none'', acodec = Val ''mp4a'',
     height = Absent, fps = Absent, abr = Val 48, ext = Val ''m4a'', filesize = Val 0\<rparr>"

definition fractional_info :: raw_info where
  "fractional_info = \<lparr>info_formats = Val [fractional_audio, empty_audio],
     info_title = Absent, info_duration = Absent\<rparr>"

definition fractional_result :: video_result where
  "fractional_result = \<lparr>title = Some ''Unknown Title'', duration = ''Unknown'',
     video_formats = [],
     audio_formats = [(''128kbps (webm)'', ''251'', fractional_audio),
                      (''48kbps (m4a)'', ''139'', empty_audio)]\<rparr>"

text \<open>A descriptor without the \<^verbatim>\<open>vcodec\<close> key, and two of equal height around it.\<close>

definition no_vcodec :: raw_format where
  "no_vcodec = \<lparr>format_id = Some ''18'', vcodec = Absent, acodec = Val ''aac'',
     height = Val 360, fps = Absent, abr = Absent, ext = Val ''mp4'', filesize = Val 5242880\<rparr>"

definition webm_720 :: raw_format where
  "webm_720 = \<lparr>format_id = Some ''45'', vcodec = Val ''vp8'', acodec = Val ''vorbis'',
     height = Val 720, fps = Val 60, abr = Absent, ext = Val ''webm'', filesize = Absent\<rparr>"

definition mixed_info :: raw_info where
  "mixed_info = \<lparr>info_formats = Val [no_vcodec, scenario_video, scenario_audio, webm_720],
     info_title = Val ''T'', info_duration = Val 3725\<rparr>"

definition mixed_result :: video_result where
  "mixed_result = \<lparr>title = Some ''T'', duration = ''62:05'',
     video_formats = [(''720p (mp4)'', ''22'', scenario_video),
                      (''720p60 (webm)'', ''45'', webm_720),
                      (''360p (mp4) (~5MB)'', ''18'', no_vcodec)],
     audio_formats = [(''128kbps (mp3)'', ''140'', scenario_audio)]\<rparr>"

text \<open>What an accepted \<^verbatim>\<open>start_download\<close> makes of the window.\<close>

definition started_download :: "downloader \<Rightarrow> downloader \<Rightarrow> bool" where
  "started_download st st' \<longleftrightarrow>
     (\<exists>opts. st' = st\<lparr>download_btn := False, fetch_btn := False,
        status_label := ''Downloading...'', progress_label := ''Starting download...'',
        download_thread := Some (strip (url_entry st), strip (save_entry st), opts),
        download_in_flight := True, threads_started := Suc (threads_started st)\<rparr>)"

text \<open>Events that end a download.\<close>

definition ends_download :: "event \<Rightarrow> bool" where
  "ends_download ev =
     (case ev of
        DownloadSignal s \<Rightarrow> (case s of Progress m \<Rightarrow> False | Finished m \<Rightarrow> True | Failed m \<Rightarrow> True)
      | _ \<Rightarrow> False)"

text \<open>A session: a url is entered and resolved to the scenario's result, then downloaded.\<close>

definition env0 :: env where
  "env0 = \<lparr>validate_url = (\<lambda>u. True), path_exists = (\<lambda>p. p = ''/home/u/Downloads''),
     home_downloads = ''/home/u/Downloads''\<rparr>"

definition resolving_events :: "event list" where
  "resolving_events = [EditUrl ''https://youtu.be/abc'', ClickFetch]"

definition resolved_events :: "event list" where
  "resolved_events = resolving_events @ [InfoSignal (InfoFinished scenario_result)]"

definition downloading_events :: "event list" where
  "downloading_events = resolved_events @ [ClickDownload]"

definition resolving_state :: downloader where
  "resolving_state = \<lparr>url_entry = ''https://youtu.be/abc'', save_entry = ''/home/u/Downloads'',
     radio_video = True, video_list = [], video_row = -1, audio_list = [], audio_row = -1,
     self_video_formats = [], self_audio_formats = [], fetch_btn = False, download_btn = True,
     status_label = ''Fetching video information...'', progress_label = ''Working...'',
     log_text = [], video_thread = Some ''https://youtu.be/abc'', download_thread = None,
     dialogs = [], resolve_in_flight = True, download_in_flight = False, threads_started = 1\<rparr>"

definition resolved_state :: downloader where
  "resolved_state = \<lparr>url_entry = ''https://youtu.be/abc'', save_entry = ''/home/u/Downloads'',
     radio_video = True, video_list = [''720p (mp4)''], video_row = 0,
     audio_list = [''128kbps (mp3)''], audio_row = 0,
     self_video_formats = [(''720p (mp4)'', ''22'', scenario_video)],
     self_audio_formats = [(''128kbps (mp3)'', ''140'', scenario_audio)],
     fetch_btn = True, download_btn = True,
     status_label = ''Video info fetched'', progress_label = ''Ready'',
     log_text = [''Title: T'', ''Duration: 2:05''],
     video_thread = Some ''https://youtu.be/abc'', download_thread = None,
     dialogs = [], resolve_in_flight = False, download_in_flight = False, threads_started = 1\<rparr>"

definition muxed_opts :: ydl_opts where
  "muxed_opts = ydl_opts_base\<lparr>outtmpl := Some ''/home/u/Downloads/%(title)s.%(ext)s'',
     format := Some ''22+140/best'', merge_output_format := Some ''mp4''\<rparr>"

definition audio_opts :: ydl_opts where
  "audio_opts = ydl_opts_base\<lparr>outtmpl := Some ''/home/u/Downloads/%(title)s.%(ext)s'',
     format := Some ''140'',
     postprocessors := Some [\<lparr>key = ''FFmpegExtractAudio'', preferredcodec = ''mp3'',
       preferredquality = ''192''\<rparr>]\<rparr>"

definition downloading_state :: downloader where
  "downloading_state = resolved_state\<lparr>fetch_btn := False, download_btn := False,
     status_label := ''Downloading...'', progress_label := ''Starting download...'',
     download_thread := Some (''https://youtu.be/abc'', ''/home/u/Downloads'', muxed_opts),
     download_in_flight := True, threads_started := 2\<rparr>"

definition audio_mode_state :: downloader where
  "audio_mode_state = resolved_state\<lparr>radio_video := False\<rparr>"

definition audio_downloading_state :: downloader where
  "audio_downloading_state = audio_mode_state\<lparr>fetch_btn := False, download_btn := False,
     status_label := ''Downloading...'', progress_label := ''Starting download...'',
     download_thread := Some (''https://youtu.be/abc'', ''/home/u/Downloads'', audio_opts),
     download_in_flight := True, threads_started := 2\<rparr>"

definition failed_state :: downloader where
  "failed_state = downloading_state\<lparr>fetch_btn := True, download_btn := True,
     status_label := ''Download failed'', progress_label := ''Failed'',
     log_text := [''Title: T'', ''Duration: 2:05'', ''Downloading...  50.0% at 1.00MiB/s'',
       ''ERROR: Download failed: HTTP Error 403''],
     dialogs := [Critical ''Download Error'' ''Download failed: HTTP Error 403''],
     download_in_flight := False\<rparr>"



section \<open>Properties of the resolver\<close>

lemma included_disjoint: "included_video f \<Longrightarrow> \<not> included_audio f"
  by (auto simp: included_video_def included_audio_def)

lemma process_fmt_cases:
  "process_fmt f (vs, as) = Inr (vs', as') \<Longrightarrow>
     (included_video f \<and> as' = as \<and> (\<exists>x. vs' = vs @ [x] \<and> raw x = f \<and> video_entry_ok x)) \<or>
     (included_audio f \<and> vs' = vs \<and> (\<exists>x. as' = as @ [x] \<and> raw x = f \<and> audio_entry_ok x)) \<or>
     (\<not> included_video f \<and> \<not> included_audio f \<and> vs' = vs \<and> as' = as)"
  by (auto simp: process_fmt_def included_video_def included_audio_def video_entry_ok_def
      audio_entry_ok_def raw_def label_def entry_id_def
      split: if_splits option.splits)

lemma process_formats_raw:
  "process_formats fs (vs, as) = Inr (vs', as') \<Longrightarrow>
     map raw vs' = map raw vs @ filter included_video fs \<and>
     map raw as' = map raw as @ filter included_audio fs"
proof (induction fs arbitrary: vs as)
  case Nil
  then show ?case by simp
next
  case (Cons f fs)
  from Cons.prems obtain vs1 as1 where
    s: "process_fmt f (vs, as) = Inr (vs1, as1)" and
    r: "process_formats fs (vs1, as1) = Inr (vs', as')"
    by (auto split: sum.splits)
  from Cons.IH [OF r] process_fmt_cases [OF s] show ?case
    by (auto simp: included_disjoint)
qed

lemma process_formats_ok:
  "process_formats fs (vs, as) = Inr (vs', as') \<Longrightarrow>
     list_all video_entry_ok vs \<Longrightarrow> list_all audio_entry_ok as \<Longrightarrow>
     list_all video_entry_ok vs' \<and> list_all audio_entry_ok as'"
proof (induction fs arbitrary: vs as)
  case Nil
  then show ?case by simp
next
  case (Cons f fs)
  from Cons.prems obtain vs1 as1 where
    s: "process_fmt f (vs, as) = Inr (vs1, as1)" and
    r: "process_formats fs (vs1, as1) = Inr (vs', as')"
    by (auto split: sum.splits)
  from process_fmt_cases [OF s] Cons.prems(2,3)
  have "list_all video_entry_ok vs1 \<and> list_all audio_entry_ok as1" by auto
  with Cons.IH [OF r] show ?case by simp
qed

lemma process_fmt_total:
  "format_id f \<noteq> None \<Longrightarrow> \<exists>r. process_fmt f acc = Inr r"
  by (cases acc) (auto simp: process_fmt_def split: option.splits)

lemma process_formats_total:
  "\<forall>f \<in> set fs. format_id f \<noteq> None \<Longrightarrow> \<exists>r. process_formats fs acc = Inr r"
proof (induction fs arbitrary: acc)
  case Nil
  then show ?case by simp
next
  case (Cons f fs)
  then obtain r where "process_fmt f acc = Inr r"
    using process_fmt_total [of f acc] by auto
  with Cons show ?case by simp
qed

lemma sort_reverse_sorted:
  "sort_reverse k xs = Inr ys \<Longrightarrow> sorted (rev (map k ys))"
  by (auto simp: sort_reverse_def rev_map split: if_splits)

lemma sort_reverse_stable:
  "sort_reverse k xs = Inr ys \<Longrightarrow> filter (\<lambda>y. k y = a) ys = filter (\<lambda>y. k y = a) xs"
  by (auto simp: sort_reverse_def sort_key_stable simp flip: rev_filter split: if_splits)

lemma sort_reverse_mset:
  "sort_reverse k xs = Inr ys \<Longrightarrow> mset ys = mset xs"
  by (auto simp: sort_reverse_def split: if_splits)

lemma sort_reverse_total:
  "\<forall>x \<in> set xs. k x \<noteq> None \<Longrightarrow> \<exists>ys. sort_reverse k xs = Inr ys"
  by (auto simp: sort_reverse_def)


lemma run_finished_iff:
  "VideoInfoThread_run (ProbeInfo info) = InfoFinished r \<longleftrightarrow> process_info info = Inr r"
  by (auto simp: VideoInfoThread_run_def split: sum.splits)

lemma process_info_Inr:
  assumes "process_info info = Inr r" and "get_or (info_formats info) [] = Some formats"
  shows "\<exists>vs as. process_formats formats ([], []) = Inr (vs, as) \<and>
           sort_reverse height_key vs = Inr (video_formats r) \<and>
           sort_reverse abr_key as = Inr (audio_formats r)"
  using assms by (auto simp: process_info_def split: option.splits sum.splits)





lemma run_lists:
  assumes "VideoInfoThread_run (ProbeInfo info) = InfoFinished r"
    and "get_or (info_formats info) [] = Some formats"
  obtains vs as where
    "map raw vs = filter included_video formats"
    "map raw as = filter included_audio formats"
    "list_all video_entry_ok vs" "list_all audio_entry_ok as"
    "sort_reverse height_key vs = Inr (video_formats r)"
    "sort_reverse abr_key as = Inr (audio_formats r)"
proof -
  from assms obtain vs as where
    p: "process_formats formats ([], []) = Inr (vs, as)" and
    s: "sort_reverse height_key vs = Inr (video_formats r)"
       "sort_reverse abr_key as = Inr (audio_formats r)"
    using process_info_Inr by (auto simp: run_finished_iff) blast
  have raws: "map raw vs = filter included_video formats"
    "map raw as = filter included_audio formats"
    using process_formats_raw [OF p] by simp_all
  have oks: "list_all video_entry_ok vs" "list_all audio_entry_ok as"
    using process_formats_ok [OF p] by simp_all
  from raws oks s show thesis by (rule that)
qed

lemma count_list_filter:
  "P x \<Longrightarrow> count_list (filter P xs) x = count_list xs x"
  by (induction xs) auto

lemma count_list_sort_reverse:
  assumes "sort_reverse k xs = Inr ys"
  shows "count_list (map g ys) y = count_list (map g xs) y"
proof -
  have "mset (map g ys) = mset (map g xs)"
    using sort_reverse_mset [OF assms] by simp
  then show ?thesis by (metis count_mset)
qed

lemma set_sort_reverse:
  "sort_reverse k xs = Inr ys \<Longrightarrow> set ys = set xs"
  by (metis sort_reverse_mset set_mset_mset)

lemma run_sets:
  assumes "VideoInfoThread_run (ProbeInfo info) = InfoFinished r"
    and "get_or (info_formats info) [] = Some formats"
  shows "raw ` set (video_formats r) = {f \<in> set formats. included_video f}"
    and "raw ` set (audio_formats r) = {f \<in> set formats. included_audio f}"
    and "list_all video_entry_ok (video_formats r)"
    and "list_all audio_entry_ok (audio_formats r)"
proof -
  from assms obtain vs as where
    v: "map raw vs = filter included_video formats" and
    a: "map raw as = filter included_audio formats" and
    ok: "list_all video_entry_ok vs" "list_all audio_entry_ok as" and
    sv: "sort_reverse height_key vs = Inr (video_formats r)" and
    sa: "sort_reverse abr_key as = Inr (audio_formats r)"
    by (rule run_lists)
  show "raw ` set (video_formats r) = {f \<in> set formats. included_video f}"
    using set_sort_reverse [OF sv] v by (metis set_map set_filter)
  show "raw ` set (audio_formats r) = {f \<in> set formats. included_audio f}"
    using set_sort_reverse [OF sa] a by (metis set_map set_filter)
  show "list_all video_entry_ok (video_formats r)"
    using set_sort_reverse [OF sv] ok(1) by (simp add: list_all_iff)
  show "list_all audio_entry_ok (audio_formats r)"
    using set_sort_reverse [OF sa] ok(2) by (simp add: list_all_iff)
qed

lemma video_entry_ok_key: "video_entry_ok x \<Longrightarrow> \<exists>h. height_key x = Some h"
  by (auto simp: video_entry_ok_def height_key_def split: option.splits)

lemma audio_entry_ok_key: "audio_entry_ok x \<Longrightarrow> \<exists>b. abr_key x = Some b"
  by (auto simp: audio_entry_ok_def abr_key_def split: option.splits)

text \<open>The resolver delivers a result when every descriptor has its format identifier.\<close>

lemma VideoInfoThread_run_total:
  assumes "get_or (info_formats info) [] = Some formats"
    and "\<forall>f \<in> set formats. format_id f \<noteq> None"
  shows "\<exists>r. VideoInfoThread_run (ProbeInfo info) = InfoFinished r"
proof -
  from process_formats_total [OF assms(2), of "([], [])"] obtain vs as where
    p: "process_formats formats ([], []) = Inr (vs, as)"
    by (cases "process_formats formats ([], [])") auto
  from process_formats_ok [OF p] have ok: "list_all video_entry_ok vs" "list_all audio_entry_ok as"
    by simp_all
  have "\<forall>x \<in> set vs. height_key x \<noteq> None"
    using ok(1) video_entry_ok_key by (fastforce simp: list_all_iff)
  then obtain vs' where sv: "sort_reverse height_key vs = Inr vs'"
    using sort_reverse_total by blast
  have "\<forall>x \<in> set as. abr_key x \<noteq> None"
    using ok(2) audio_entry_ok_key by (fastforce simp: list_all_iff)
  then obtain as' where sa: "sort_reverse abr_key as = Inr as'"
    using sort_reverse_total by blast
  from assms(1) p sv sa show ?thesis
    by (simp add: VideoInfoThread_run_def process_info_def)
qed

lemma scenario_run:
  "VideoInfoThread_run (ProbeInfo scenario_info) = InfoFinished scenario_result"
  by code_simp

lemma fractional_run:
  "VideoInfoThread_run (ProbeInfo fractional_info) = InfoFinished fractional_result"
  by code_simp

lemma mixed_run:
  "VideoInfoThread_run (ProbeInfo mixed_info) = InfoFinished mixed_result"
  by code_simp

lemma mixed_formats:
  "get_or (info_formats mixed_info) [] = Some [no_vcodec, scenario_video, scenario_audio, webm_720]"
  by (simp add: mixed_info_def)

lemmas concrete_formats =
  no_vcodec_def scenario_video_def scenario_audio_def webm_720_def

text \<open>
  C1. Whenever the resolver delivers a result: a descriptor whose \<^verbatim>\<open>vcodec\<close> and
  \<^verbatim>\<open>acodec\<close> are both not \<^verbatim>\<open>'none'\<close> and whose height is positive has as many entries in
  \<^verbatim>\<open>video_formats\<close> as it has occurrences in the probe result (one for each), and none in
  \<^verbatim>\<open>audio_formats\<close>; a descriptor whose \<^verbatim>\<open>acodec\<close> is not \<^verbatim>\<open>'none'\<close>, whose
  \<^verbatim>\<open>vcodec\<close> is \<^verbatim>\<open>'none'\<close> and whose bitrate is positive has as many entries in
  \<^verbatim>\<open>audio_formats\<close> as it has occurrences, and none in \<^verbatim>\<open>video_formats\<close>.
\<close>

theorem C1_kept_exactly_once:
  assumes "VideoInfoThread_run (ProbeInfo info) = InfoFinished r"
    and "get_or (info_formats info) [] = Some formats"
  shows "(\<forall>f h. get (vcodec f) \<noteq> Some ''none'' \<and> get (acodec f) \<noteq> Some ''none'' \<and>
              height f = Val h \<and> 0 < h \<longrightarrow>
            count_list (map raw (video_formats r)) f = count_list formats f \<and>
            f \<notin> raw ` set (audio_formats r)) \<and>
         (\<forall>f b. get (acodec f) \<noteq> Some ''none'' \<and> vcodec f = Val ''none'' \<and>
              abr f = Val b \<and> 0 < b \<longrightarrow>
            count_list (map raw (audio_formats r)) f = count_list formats f \<and>
            f \<notin> raw ` set (video_formats r))"
proof -
  from assms obtain vs as where
    v: "map raw vs = filter included_video formats" and
    a: "map raw as = filter included_audio formats" and
    sv: "sort_reverse height_key vs = Inr (video_formats r)" and
    sa: "sort_reverse abr_key as = Inr (audio_formats r)"
    by (rule run_lists)
  have cv: "count_list (map raw (video_formats r)) f = count_list (filter included_video formats) f" for f
    using count_list_sort_reverse [OF sv, of raw f] v by simp
  have ca: "count_list (map raw (audio_formats r)) f = count_list (filter included_audio formats) f" for f
    using count_list_sort_reverse [OF sa, of raw f] a by simp
  have rv: "raw ` set (video_formats r) = {f \<in> set formats. included_video f}"
    using set_sort_reverse [OF sv] v by (metis set_map set_filter)
  have ra: "raw ` set (audio_formats r) = {f \<in> set formats. included_audio f}"
    using set_sort_reverse [OF sa] a by (metis set_map set_filter)
  have 1: "count_list (map raw (video_formats r)) f = count_list formats f \<and>
           f \<notin> raw ` set (audio_formats r)"
    if "get (vcodec f) \<noteq> Some ''none''" "get (acodec f) \<noteq> Some ''none''" "height f = Val h" "0 < h"
    for f h
  proof -
    from that have "included_video f" by (simp add: included_video_def)
    then show ?thesis using cv ra by (simp add: count_list_filter included_disjoint)
  qed
  have 2: "count_list (map raw (audio_formats r)) f = count_list formats f \<and>
           f \<notin> raw ` set (video_formats r)"
    if "get (acodec f) \<noteq> Some ''none''" "vcodec f = Val ''none''" "abr f = Val b" "0 < b"
    for f b
  proof -
    from that have "included_audio f" by (simp add: included_audio_def)
    then show ?thesis using ca rv included_disjoint by (auto simp: count_list_filter)
  qed
  from 1 2 show ?thesis by blast
qed

theorem C1_kept_exactly_once_witness:
  "VideoInfoThread_run (ProbeInfo mixed_info) = InfoFinished mixed_result \<and>
   get_or (info_formats mixed_info) [] = Some [no_vcodec, scenario_video, scenario_audio, webm_720] \<and>
   count_list (map raw (video_formats mixed_result)) scenario_video = 1 \<and>
   scenario_video \<notin> raw ` set (audio_formats mixed_result) \<and>
   count_list (map raw (audio_formats mixed_result)) scenario_audio = 1 \<and>
   scenario_audio \<notin> raw ` set (video_formats mixed_result)"
proof -
  note t = C1_kept_exactly_once [OF mixed_run mixed_formats]
  have v: "count_list (map raw (video_formats mixed_result)) scenario_video =
             count_list [no_vcodec, scenario_video, scenario_audio, webm_720] scenario_video \<and>
           scenario_video \<notin> raw ` set (audio_formats mixed_result)"
    using t [THEN conjunct1, rule_format, of scenario_video 720]
    by (simp add: scenario_video_def)
  have a: "count_list (map raw (audio_formats mixed_result)) scenario_audio =
             count_list [no_vcodec, scenario_video, scenario_audio, webm_720] scenario_audio \<and>
           scenario_audio \<notin> raw ` set (video_formats mixed_result)"
    using t [THEN conjunct2, rule_format, of scenario_audio 128]
    by (simp add: scenario_audio_def)
  have c: "count_list [no_vcodec, scenario_video, scenario_audio, webm_720] scenario_video = 1"
    "count_list [no_vcodec, scenario_video, scenario_audio, webm_720] scenario_audio = 1"
    by (simp_all add: concrete_formats)
  from v a c mixed_run mixed_formats show ?thesis by simp
qed

text \<open>
  C2. Whenever the resolver delivers a result, every entry has a number as its sort key
  (so that the order of the keys is the order of these numbers), \<^verbatim>\<open>video_formats\<close>
  is in descending order of the height key and \<^verbatim>\<open>audio_formats\<close> in descending order
  of the bitrate key, and
  the entries of one key value are, in their order, the kept descriptors of that key
  value in the order of the probe result.
\<close>

theorem C2_sorted_stable:
  assumes "VideoInfoThread_run (ProbeInfo info) = InfoFinished r"
    and "get_or (info_formats info) [] = Some formats"
  shows "(\<forall>x \<in> set (video_formats r). \<exists>h. height_key x = Some h) \<and>
         (\<forall>x \<in> set (audio_formats r). \<exists>b. abr_key x = Some b) \<and>
         sorted_wrt (\<lambda>x y. height_key y \<le> height_key x) (video_formats r) \<and>
         sorted_wrt (\<lambda>x y. abr_key y \<le> abr_key x) (audio_formats r) \<and>
         (\<forall>k. map raw (filter (\<lambda>x. height_key x = k) (video_formats r)) =
               filter (\<lambda>f. get_or (height f) 0 = k) (filter included_video formats)) \<and>
         (\<forall>k. map raw (filter (\<lambda>x. abr_key x = k) (audio_formats r)) =
               filter (\<lambda>f. get_or (abr f) 0 = k) (filter included_audio formats))"
proof -
  from assms obtain vs as where
    v: "map raw vs = filter included_video formats" and
    a: "map raw as = filter included_audio formats" and
    sv: "sort_reverse height_key vs = Inr (video_formats r)" and
    sa: "sort_reverse abr_key as = Inr (audio_formats r)"
    by (rule run_lists)
  have 1: "sorted_wrt (\<lambda>x y. height_key y \<le> height_key x) (video_formats r)"
    using sort_reverse_sorted [OF sv] by (simp add: sorted_wrt_rev sorted_wrt_map)
  have 2: "sorted_wrt (\<lambda>x y. abr_key y \<le> abr_key x) (audio_formats r)"
    using sort_reverse_sorted [OF sa] by (simp add: sorted_wrt_rev sorted_wrt_map)
  have 3: "map raw (filter (\<lambda>x. height_key x = k) (video_formats r)) =
           filter (\<lambda>f. get_or (height f) 0 = k) (filter included_video formats)" for k
  proof -
    have "map raw (filter (\<lambda>x. height_key x = k) (video_formats r)) =
          map raw (filter (\<lambda>x. height_key x = k) vs)"
      by (simp add: sort_reverse_stable [OF sv])
    also have "\<dots> = filter (\<lambda>f. get_or (height f) 0 = k) (map raw vs)"
      by (simp add: filter_map comp_def height_key_def)
    finally show ?thesis by (simp add: v)
  qed
  have 4: "map raw (filter (\<lambda>x. abr_key x = k) (audio_formats r)) =
           filter (\<lambda>f. get_or (abr f) 0 = k) (filter included_audio formats)" for k
  proof -
    have "map raw (filter (\<lambda>x. abr_key x = k) (audio_formats r)) =
          map raw (filter (\<lambda>x. abr_key x = k) as)"
      by (simp add: sort_reverse_stable [OF sa])
    also have "\<dots> = filter (\<lambda>f. get_or (abr f) 0 = k) (map raw as)"
      by (simp add: filter_map comp_def abr_key_def)
    finally show ?thesis by (simp add: a)
  qed
  note s = run_sets [OF assms]
  have 5: "\<forall>x \<in> set (video_formats r). \<exists>h. height_key x = Some h"
    using s(3) video_entry_ok_key by (auto simp: list_all_iff)
  have 6: "\<forall>x \<in> set (audio_formats r). \<exists>b. abr_key x = Some b"
    using s(4) audio_entry_ok_key by (auto simp: list_all_iff)
  from 1 2 3 4 5 6 show ?thesis by blast
qed

theorem C2_sorted_stable_witness:
  "VideoInfoThread_run (ProbeInfo mixed_info) = InfoFinished mixed_result \<and>
   get_or (info_formats mixed_info) [] = Some [no_vcodec, scenario_video, scenario_audio, webm_720] \<and>
   sorted_wrt (\<lambda>x y. height_key y \<le> height_key x) (video_formats mixed_result) \<and>
   map raw (filter (\<lambda>x. height_key x = Some 720) (video_formats mixed_result)) =
     [scenario_video, webm_720]"
proof -
  note t = C2_sorted_stable [OF mixed_run mixed_formats]
  have s: "sorted_wrt (\<lambda>x y. height_key y \<le> height_key x) (video_formats mixed_result)"
    using t by blast
  have "map raw (filter (\<lambda>x. height_key x = Some 720) (video_formats mixed_result)) =
        filter (\<lambda>f. get_or (height f) 0 = Some 720)
          (filter included_video [no_vcodec, scenario_video, scenario_audio, webm_720])"
    using t by blast
  also have "\<dots> = [scenario_video, webm_720]"
    by (simp add: included_video_def concrete_formats)
  finally show ?thesis using s mixed_run mixed_formats by simp
qed



text \<open>
  C10. A descriptor of the probe result without the \<^verbatim>\<open>vcodec\<close> key, with an
  \<^verbatim>\<open>acodec\<close> that is not \<^verbatim>\<open>'none'\<close> and with a positive height is in
  \<^verbatim>\<open>video_formats\<close> and not in \<^verbatim>\<open>audio_formats\<close>, whenever the resolver delivers a
  result: the missing key counts as a codec that is there.
\<close>

theorem C10_missing_codec_is_present:
  assumes "VideoInfoThread_run (ProbeInfo info) = InfoFinished r"
    and "get_or (info_formats info) [] = Some formats"
    and "f \<in> set formats"
    and "vcodec f = Absent" and "acodec f \<noteq> Val ''none''"
    and "height f = Val h" and "0 < h"
  shows "f \<in> raw ` set (video_formats r) \<and> f \<notin> raw ` set (audio_formats r)"
proof -
  from assms(1,2) obtain vs as where
    v: "map raw vs = filter included_video formats" and
    a: "map raw as = filter included_audio formats" and
    sv: "sort_reverse height_key vs = Inr (video_formats r)" and
    sa: "sort_reverse abr_key as = Inr (audio_formats r)"
    by (rule run_lists)
  have rv: "raw ` set (video_formats r) = {f \<in> set formats. included_video f}"
    using set_sort_reverse [OF sv] v by (metis set_map set_filter)
  have ra: "raw ` set (audio_formats r) = {f \<in> set formats. included_audio f}"
    using set_sort_reverse [OF sa] a by (metis set_map set_filter)
  have "included_video f"
    using assms(4-7) by (cases "acodec f") (auto simp: included_video_def)
  then show ?thesis using assms(3) rv ra included_disjoint by auto
qed

theorem C10_missing_codec_is_present_witness:
  "VideoInfoThread_run (ProbeInfo mixed_info) = InfoFinished mixed_result \<and>
   get_or (info_formats mixed_info) [] = Some [no_vcodec, scenario_video, scenario_audio, webm_720] \<and>
   no_vcodec \<in> set [no_vcodec, scenario_video, scenario_audio, webm_720] \<and>
   vcodec no_vcodec = Absent \<and> acodec no_vcodec \<noteq> Val ''none'' \<and>
   height no_vcodec = Val 360 \<and> (0 :: int) < 360 \<and>
   no_vcodec \<in> raw ` set (video_formats mixed_result) \<and>
   no_vcodec \<notin> raw ` set (audio_formats mixed_result)"
proof -
  have m: "no_vcodec \<in> set [no_vcodec, scenario_video, scenario_audio, webm_720]" by simp
  have f: "vcodec no_vcodec = Absent" "acodec no_vcodec \<noteq> Val ''none''"
    "height no_vcodec = Val 360" "(0 :: int) < 360"
    by (simp_all add: no_vcodec_def)
  from C10_missing_codec_is_present [OF mixed_run mixed_formats m f] m f mixed_run mixed_formats
  show ?thesis by simp
qed

lemma size_str_shown: "size_str (get (filesize f)) = spec_size_suffix (shown_size f)"
  by (simp add: size_str_def spec_size_suffix_def shown_size_def split: option.splits)

lemma video_quality_str_spec:
  "video_quality_str f h = spec_video_label h (get (fps f)) (shown_ext f) (shown_size f)"
  by (cases "fps f")
     (simp_all add: video_quality_str_def spec_video_label_def shown_ext_def size_str_shown)

lemma audio_quality_str_trunc:
  "audio_quality_str f b = trunc_audio_label b (shown_ext f) (shown_size f)"
  by (simp add: audio_quality_str_def trunc_audio_label_def shown_ext_def size_str_shown)

lemma video_entry_ok_label:
  assumes "video_entry_ok x"
  shows "\<exists>h. height (raw x) = Val h \<and> h \<noteq> 0 \<and>
           label x = spec_video_label h (get (fps (raw x))) (shown_ext (raw x)) (shown_size (raw x))"
  using assms
  by (cases "height (raw x)") (auto simp: video_entry_ok_def video_quality_str_spec)

lemma audio_entry_ok_label:
  assumes "audio_entry_ok x"
  shows "\<exists>b. abr (raw x) = Val b \<and> b \<noteq> 0 \<and>
           label x = trunc_audio_label b (shown_ext (raw x)) (shown_size (raw x))"
  using assms
  by (cases "abr (raw x)") (auto simp: audio_entry_ok_def audio_quality_str_trunc)

text \<open>
  C3, as the code has it. In every result of the resolver, an entry of
  \<^verbatim>\<open>video_formats\<close> has a height \<open>h\<close> that is present and not zero and the label
  \<^verbatim>\<open>"<h>p"\<close>, then the frame rate when it is above 30, then \<^verbatim>\<open>" (<ext>)"\<close>, then
  \<^verbatim>\<open>" (~<size div 1MiB>MB)"\<close> when the size is present and not zero; an entry of
  \<^verbatim>\<open>audio_formats\<close> has a bitrate \<open>b\<close> that is present and not zero and the label
  \<^verbatim>\<open>"<b truncated towards zero>kbps (<ext>)"\<close> with the same size suffix; a descriptor
  with both codecs and no height, or with sound only and no bitrate, is in neither list.
  The scenario's two descriptors give the labels \<^verbatim>\<open>720p (mp4)\<close> and
  \<^verbatim>\<open>128kbps (mp3)\<close>.
\<close>

theorem C3_labels:
  "(\<forall>info r formats.
      VideoInfoThread_run (ProbeInfo info) = InfoFinished r \<and>
      get_or (info_formats info) [] = Some formats \<longrightarrow>
      (\<forall>x \<in> set (video_formats r). \<exists>h. height (raw x) = Val h \<and> h \<noteq> 0 \<and>
          label x = spec_video_label h (get (fps (raw x))) (shown_ext (raw x)) (shown_size (raw x))) \<and>
      (\<forall>x \<in> set (audio_formats r). \<exists>b. abr (raw x) = Val b \<and> b \<noteq> 0 \<and>
          label x = trunc_audio_label b (shown_ext (raw x)) (shown_size (raw x))) \<and>
      (\<forall>f \<in> set formats.
          get (vcodec f) \<noteq> Some ''none'' \<and> get (acodec f) \<noteq> Some ''none'' \<and>
          \<not> truthy (get_or (height f) 0) \<longrightarrow>
          f \<notin> raw ` set (video_formats r) \<and> f \<notin> raw ` set (audio_formats r)) \<and>
      (\<forall>f \<in> set formats.
          get (acodec f) \<noteq> Some ''none'' \<and> get (vcodec f) = Some ''none'' \<and>
          \<not> truthy (get_or (abr f) 0) \<longrightarrow>
          f \<notin> raw ` set (video_formats r) \<and> f \<notin> raw ` set (audio_formats r))) \<and>
   (\<exists>r. VideoInfoThread_run (ProbeInfo scenario_info) = InfoFinished r \<and>
        map label (video_formats r) = [''720p (mp4)''] \<and>
        map label (audio_formats r) = [''128kbps (mp3)''])"
proof -
  have general:
    "(\<forall>x \<in> set (video_formats r). \<exists>h. height (raw x) = Val h \<and> h \<noteq> 0 \<and>
          label x = spec_video_label h (get (fps (raw x))) (shown_ext (raw x)) (shown_size (raw x))) \<and>
     (\<forall>x \<in> set (audio_formats r). \<exists>b. abr (raw x) = Val b \<and> b \<noteq> 0 \<and>
          label x = trunc_audio_label b (shown_ext (raw x)) (shown_size (raw x))) \<and>
     (\<forall>f \<in> set formats.
          get (vcodec f) \<noteq> Some ''none'' \<and> get (acodec f) \<noteq> Some ''none'' \<and>
          \<not> truthy (get_or (height f) 0) \<longrightarrow>
          f \<notin> raw ` set (video_formats r) \<and> f \<notin> raw ` set (audio_formats r)) \<and>
     (\<forall>f \<in> set formats.
          get (acodec f) \<noteq> Some ''none'' \<and> get (vcodec f) = Some ''none'' \<and>
          \<not> truthy (get_or (abr f) 0) \<longrightarrow>
          f \<notin> raw ` set (video_formats r) \<and> f \<notin> raw ` set (audio_formats r))"
    if run: "VideoInfoThread_run (ProbeInfo info) = InfoFinished r"
      and fs: "get_or (info_formats info) [] = Some formats"
    for info r formats
  proof -
    note s = run_sets [OF run fs]
    have 1: "\<forall>x \<in> set (video_formats r). \<exists>h. height (raw x) = Val h \<and> h \<noteq> 0 \<and>
          label x = spec_video_label h (get (fps (raw x))) (shown_ext (raw x)) (shown_size (raw x))"
      using s(3) video_entry_ok_label by (auto simp: list_all_iff)
    have 2: "\<forall>x \<in> set (audio_formats r). \<exists>b. abr (raw x) = Val b \<and> b \<noteq> 0 \<and>
          label x = trunc_audio_label b (shown_ext (raw x)) (shown_size (raw x))"
      using s(4) audio_entry_ok_label by (auto simp: list_all_iff)
    have 3: "\<forall>f \<in> set formats.
          get (vcodec f) \<noteq> Some ''none'' \<and> get (acodec f) \<noteq> Some ''none'' \<and>
          \<not> truthy (get_or (height f) 0) \<longrightarrow>
          f \<notin> raw ` set (video_formats r) \<and> f \<notin> raw ` set (audio_formats r)"
      unfolding s(1,2) by (auto simp: included_video_def included_audio_def)
    have 4: "\<forall>f \<in> set formats.
          get (acodec f) \<noteq> Some ''none'' \<and> get (vcodec f) = Some ''none'' \<and>
          \<not> truthy (get_or (abr f) 0) \<longrightarrow>
          f \<notin> raw ` set (video_formats r) \<and> f \<notin> raw ` set (audio_formats r)"
      unfolding s(1,2) by (auto simp: included_video_def included_audio_def)
    from 1 2 3 4 show ?thesis by blast
  qed
  have scenario:
    "\<exists>r. VideoInfoThread_run (ProbeInfo scenario_info) = InfoFinished r \<and>
        map label (video_formats r) = [''720p (mp4)''] \<and>
        map label (audio_formats r) = [''128kbps (mp3)'']"
    using scenario_run by (simp add: scenario_result_def label_def)
  from general scenario show ?thesis by blast
qed

theorem C3_labels_witness:
  "VideoInfoThread_run (ProbeInfo mixed_info) = InfoFinished mixed_result \<and>
   get_or (info_formats mixed_info) [] = Some [no_vcodec, scenario_video, scenario_audio, webm_720] \<and>
   (''720p60 (webm)'', ''45'', webm_720) \<in> set (video_formats mixed_result) \<and>
   ''720p60 (webm)'' = spec_video_label 720 (Some 60) ''webm'' None \<and>
   (''360p (mp4) (~5MB)'', ''18'', no_vcodec) \<in> set (video_formats mixed_result) \<and>
   ''360p (mp4) (~5MB)'' = spec_video_label 360 None ''mp4'' (Some 5242880)"
proof -
  note t = C3_labels [THEN conjunct1, rule_format, OF conjI, OF mixed_run mixed_formats]
  have m: "(''720p60 (webm)'', ''45'', webm_720) \<in> set (video_formats mixed_result)"
    "(''360p (mp4) (~5MB)'', ''18'', no_vcodec) \<in> set (video_formats mixed_result)"
    by (simp_all add: mixed_result_def)
  have a: "''720p60 (webm)'' = spec_video_label 720 (Some 60) ''webm'' None"
    using t [THEN conjunct1, rule_format, OF m(1)]
    by (auto simp: raw_def label_def webm_720_def shown_ext_def shown_size_def)
  have b: "''360p (mp4) (~5MB)'' = spec_video_label 360 None ''mp4'' (Some 5242880)"
    using t [THEN conjunct1, rule_format, OF m(2)]
    by (auto simp: raw_def label_def no_vcodec_def shown_ext_def shown_size_def)
  from a b m mixed_run mixed_formats show ?thesis by simp
qed

theorem C3_round_counterexample:
  "VideoInfoThread_run (ProbeInfo fractional_info) = InfoFinished fractional_result \<and>
   label (audio_formats fractional_result ! 0) = ''128kbps (webm)'' \<and>
   label (audio_formats fractional_result ! 0) \<noteq> spec_audio_label (515 / 4) ''webm'' None \<and>
   label (audio_formats fractional_result ! 1) = ''48kbps (m4a)'' \<and>
   label (audio_formats fractional_result ! 1) \<noteq> spec_audio_label 48 ''m4a'' (Some 0)"
proof -
  have 1: "label (audio_formats fractional_result ! 0) = ''128kbps (webm)''"
    "label (audio_formats fractional_result ! 1) = ''48kbps (m4a)''"
    by (simp_all add: fractional_result_def label_def)
  have 2: "spec_audio_label (515 / 4) ''webm'' None = ''129kbps (webm)''"
    by code_simp
  have 3: "spec_audio_label 48 ''m4a'' (Some 0) = ''48kbps (m4a) (~0MB)''"
    by code_simp
  from fractional_run 1 2 3 show ?thesis by simp
qed

section \<open>Properties of the download thread\<close>



lemma hook_emits_progress: "\<exists>ms. hook_emits d = map Progress ms"
  by (auto simp: hook_emits_def split: sum.splits)

lemma hooks_emit_progress: "\<exists>ms. concat (map hook_emits calls) = map Progress ms"
proof (induction calls)
  case Nil
  then show ?case by simp
next
  case (Cons d calls)
  then obtain ms where 1: "concat (map hook_emits calls) = map Progress ms" by blast
  obtain ns where 2: "hook_emits d = map Progress ns"
    using hook_emits_progress by blast
  from 1 2 have "concat (map hook_emits (d # calls)) = map Progress (ns @ ms)" by simp
  then show ?case by blast
qed



text \<open>
  C7. Whatever callbacks the collaborator made: when its download call returns, the
  thread's signals are progress messages followed by the one
  \<^verbatim>\<open>finished("Download completed successfully!")\<close>; when the call raises with
  diagnostic text \<open>m\<close>, they are progress messages followed by the one
  \<^verbatim>\<open>error("Download failed: <m>")\<close>. So a run has one terminal signal, never both.
\<close>

theorem C7_one_terminal_signal:
  "(\<exists>ms. DownloadThread_run calls Returns =
           map Progress ms @ [Finished ''Download completed successfully!'']) \<and>
   (\<exists>ms. DownloadThread_run calls (Raises m) =
           map Progress ms @ [Failed (''Download failed: '' @ m)])"
  using hooks_emit_progress [of calls] by (auto simp: DownloadThread_run_def)

section \<open>Properties of the window\<close>

lemma inv_init: "inv (init e)"
  by (simp add: inv_def init_def)

lemma inv_warning: "inv st \<Longrightarrow> inv (warning st t m)"
  by (auto simp: inv_def warning_def)

lemma inv_fetch_video_info:
  assumes "inv st" and "fetch_btn st"
  shows "inv (fetch_video_info e st)"
proof -
  from assms have "\<not> download_in_flight st" by (auto simp: inv_def)
  with assms show ?thesis
    by (auto simp: fetch_video_info_def Let_def inv_warning) (auto simp: inv_def)
qed

lemma inv_on_video_info_received:
  assumes "inv st" and "resolve_in_flight st"
  shows "inv ((on_video_info_received st info)\<lparr>resolve_in_flight := False\<rparr>)"
proof -
  from assms have e: "video_list st = []" "audio_list st = []" "\<not> download_in_flight st"
    by (auto simp: inv_def)
  with assms(1) have r: "video_row st = - 1" "audio_row st = - 1"
    by (auto simp: inv_def)
  from assms e r show ?thesis
    by (auto simp: on_video_info_received_def log_message_def Let_def inv_def)
qed

lemma inv_on_video_info_error:
  assumes "inv st" and "resolve_in_flight st"
  shows "inv ((on_video_info_error st m)\<lparr>resolve_in_flight := False\<rparr>)"
  using assms by (auto simp: on_video_info_error_def log_message_def Let_def inv_def)

lemma inv_browse_folder: "inv st \<Longrightarrow> inv (browse_folder st folder)"
  by (auto simp: browse_folder_def inv_def)

lemma inv_on_download_progress: "inv st \<Longrightarrow> inv (on_download_progress st m)"
  by (auto simp: on_download_progress_def log_message_def inv_def)

lemma inv_on_download_finished:
  assumes "inv st" and "download_in_flight st"
  shows "inv ((on_download_finished st m)\<lparr>download_in_flight := False\<rparr>)"
  using assms by (auto simp: on_download_finished_def log_message_def Let_def inv_def)

lemma inv_on_download_error:
  assumes "inv st" and "download_in_flight st"
  shows "inv ((on_download_error st m)\<lparr>download_in_flight := False\<rparr>)"
  using assms by (auto simp: on_download_error_def log_message_def Let_def inv_def)

lemma inv_select_video_row:
  assumes "inv st"
  shows "inv (if i < length (video_list st) then st\<lparr>video_row := int i\<rparr> else st)"
proof (cases "i < length (video_list st)")
  case True
  with assms show ?thesis by (auto simp: inv_def)
next
  case False
  with assms show ?thesis by simp
qed

lemma inv_select_audio_row:
  assumes "inv st"
  shows "inv (if i < length (audio_list st) then st\<lparr>audio_row := int i\<rparr> else st)"
proof (cases "i < length (audio_list st)")
  case True
  with assms show ?thesis by (auto simp: inv_def)
next
  case False
  with assms show ?thesis by simp
qed

text \<open>A row the invariant allows and the checks let through is an index of the list.\<close>

lemma py_index_in_range:
  assumes "0 \<le> i" and "i < int (length xs)"
  shows "py_index xs i = Inr (xs ! nat i)"
  using assms by (simp add: py_index_def)

lemma start_download_cases:
  assumes "inv st"
  shows "(\<exists>m. start_download e st = Inr (warning st ''Error'' m)) \<or>
         (\<exists>st'. start_download e st = Inr st' \<and> started_download st st' \<and>
            (radio_video st \<longrightarrow> 0 \<le> video_row st) \<and> 0 \<le> audio_row st)"
proof -
  from assms have l: "length (self_video_formats st) = length (video_list st)"
    "length (self_audio_formats st) = length (audio_list st)"
    by (auto simp: inv_def)
  from assms have b: "video_row st < int (length (video_list st))"
    "audio_row st < int (length (audio_list st))"
    by (auto simp: inv_def)
  have v: "py_index (self_video_formats st) (video_row st) =
             Inr (self_video_formats st ! nat (video_row st))" if "0 \<le> video_row st"
    using that b l by (simp add: py_index_in_range)
  have a: "py_index (self_audio_formats st) (audio_row st) =
             Inr (self_audio_formats st ! nat (audio_row st))" if "0 \<le> audio_row st"
    using that b l by (simp add: py_index_in_range)
  show ?thesis
    unfolding start_download_def Let_def started_download_def
    using v a by (cases "radio_video st") auto
qed

lemma inv_started_download:
  assumes "inv st" and "started_download st st'" and "0 \<le> audio_row st"
  shows "inv st'"
proof -
  from assms(1,3) have "\<not> resolve_in_flight st" by (auto simp: inv_def)
  with assms show ?thesis by (auto simp: started_download_def inv_def)
qed

lemma inv_start_download:
  assumes "inv st" and "start_download e st = Inr st'"
  shows "inv st'"
  using start_download_cases [OF assms(1), of e] assms inv_warning inv_started_download
  by auto

lemma inv_step:
  assumes "inv st" and "step e st ev = Inr st'"
  shows "inv st'"
proof (cases ev)
  case (EditUrl u)
  with assms show ?thesis by (auto simp: step_def inv_def)
next
  case ClickFetch
  with assms show ?thesis by (auto simp: step_def inv_fetch_video_info)
next
  case ChooseVideo
  with assms show ?thesis by (auto simp: step_def inv_def)
next
  case ChooseAudio
  with assms show ?thesis by (auto simp: step_def inv_def)
next
  case (SelectVideoRow i)
  with assms inv_select_video_row [OF assms(1), of i] show ?thesis by (simp add: step_def)
next
  case (SelectAudioRow i)
  with assms inv_select_audio_row [OF assms(1), of i] show ?thesis by (simp add: step_def)
next
  case (ClickBrowse folder)
  with assms show ?thesis by (auto simp: step_def inv_browse_folder)
next
  case ClickDownload
  with assms show ?thesis
    by (auto simp: step_def inv_start_download split: if_splits)
next
  case (InfoSignal s)
  with assms show ?thesis
    by (cases s)
       (auto simp: step_def inv_on_video_info_received inv_on_video_info_error split: if_splits)
next
  case (DownloadSignal s)
  with assms show ?thesis
    by (cases s)
       (auto simp: step_def inv_on_download_progress inv_on_download_finished
          inv_on_download_error split: if_splits)
qed

lemma step_total:
  assumes "inv st"
  shows "\<exists>st'. step e st ev = Inr st'"
proof (cases ev)
  case ClickDownload
  then show ?thesis
    using start_download_cases [OF assms, of e] by (auto simp: step_def)
qed (simp_all add: step_def)

lemma inv_steps:
  "inv st \<Longrightarrow> steps e st evs = Inr st' \<Longrightarrow> inv st'"
proof (induction evs arbitrary: st)
  case Nil
  then show ?case by simp
next
  case (Cons ev evs)
  from Cons.prems(2) obtain st1 where
    1: "step e st ev = Inr st1" and 2: "steps e st1 evs = Inr st'"
    by (auto split: sum.splits)
  from Cons.IH [OF inv_step [OF Cons.prems(1) 1] 2] show ?case .
qed

lemma steps_total: "inv st \<Longrightarrow> \<exists>st'. steps e st evs = Inr st'"
proof (induction evs arbitrary: st)
  case Nil
  then show ?case by simp
next
  case (Cons ev evs)
  from step_total [OF Cons.prems, of e ev] obtain st1 where 1: "step e st ev = Inr st1" by blast
  from Cons.IH [OF inv_step [OF Cons.prems 1]] 1 show ?case by simp
qed

lemma reachable_inv: "steps e (init e) evs = Inr st \<Longrightarrow> inv st"
  using inv_steps [OF inv_init] .

lemma steps_append:
  "steps e st (evs @ evs') =
     (case steps e st evs of Inl x \<Rightarrow> Inl x | Inr st' \<Rightarrow> steps e st' evs')"
  by (induction evs arbitrary: st) (auto split: sum.splits)

lemma resolving_reached: "steps env0 (init env0) resolving_events = Inr resolving_state"
  by (simp add: resolving_events_def step_def init_def env0_def fetch_video_info_def strip_def
      is_space_def resolving_state_def Let_def)

lemma resolved_step:
  "step env0 resolving_state (InfoSignal (InfoFinished scenario_result)) = Inr resolved_state"
  by (simp add: step_def resolving_state_def scenario_result_def on_video_info_received_def
      log_message_def label_def resolved_state_def Let_def)

lemma resolved_reached: "steps env0 (init env0) resolved_events = Inr resolved_state"
  by (simp add: resolved_events_def steps_append resolving_reached resolved_step)

lemma start_download_resolved: "start_download env0 resolved_state = Inr downloading_state"
  by (simp add: resolved_state_def start_download_def strip_def is_space_def env0_def
      path_join_def py_index_def entry_id_def downloading_state_def muxed_opts_def Let_def)

lemma start_download_audio_mode:
  "start_download env0 audio_mode_state = Inr audio_downloading_state"
  by (simp add: audio_mode_state_def resolved_state_def start_download_def strip_def is_space_def
      env0_def path_join_def py_index_def entry_id_def audio_downloading_state_def audio_opts_def
      Let_def)

lemma downloading_step: "step env0 resolved_state ClickDownload = Inr downloading_state"
  using start_download_resolved by (simp add: step_def resolved_state_def)

lemma downloading_reached: "steps env0 (init env0) downloading_events = Inr downloading_state"
  by (simp add: downloading_events_def steps_append resolved_reached downloading_step)

lemma failed_reached:
  "steps env0 downloading_state
     ([DownloadSignal (Progress ''Downloading...  50.0% at 1.00MiB/s'')] @
      [DownloadSignal (Failed ''Download failed: HTTP Error 403'')]) = Inr failed_state"
  by (simp add: step_def downloading_state_def resolved_state_def on_download_progress_def
      on_download_error_def log_message_def failed_state_def Let_def)

text \<open>
  C5. When \<^verbatim>\<open>start_download\<close> starts a thread, the thread's options are these: with
  the video button checked, \<^verbatim>\<open>format\<close> is the selected video id, \<^verbatim>\<open>+\<close>, the selected
  audio id and \<^verbatim>\<open>/best\<close>, and \<^verbatim>\<open>merge_output_format\<close> is \<^verbatim>\<open>mp4\<close>; with the audio
  button checked, \<^verbatim>\<open>format\<close> is the selected audio id and \<^verbatim>\<open>postprocessors\<close> is the one
  step \<^verbatim>\<open>FFmpegExtractAudio\<close> with codec \<^verbatim>\<open>mp3\<close> and quality \<^verbatim>\<open>192\<close>.
\<close>

theorem C5_download_options:
  assumes "start_download e st = Inr st'"
    and "threads_started st' = Suc (threads_started st)"
  shows "\<exists>opts. download_thread st' = Some (strip (url_entry st), strip (save_entry st), opts) \<and>
     (radio_video st \<longrightarrow>
        (\<exists>v a. py_index (self_video_formats st) (video_row st) = Inr v \<and>
               py_index (self_audio_formats st) (audio_row st) = Inr a \<and>
               format opts = Some (entry_id v @ ''+'' @ entry_id a @ ''/best'') \<and>
               merge_output_format opts = Some ''mp4'')) \<and>
     (\<not> radio_video st \<longrightarrow>
        (\<exists>a. py_index (self_audio_formats st) (audio_row st) = Inr a \<and>
             format opts = Some (entry_id a) \<and>
             postprocessors opts = Some [\<lparr>key = ''FFmpegExtractAudio'',
               preferredcodec = ''mp3'', preferredquality = ''192''\<rparr>]))"
proof (cases "radio_video st")
  case True
  with assms show ?thesis
    unfolding start_download_def Let_def warning_def
    by (auto split: if_splits sum.splits)
next
  case False
  with assms show ?thesis
    unfolding start_download_def Let_def warning_def
    by (auto split: if_splits sum.splits)
qed

theorem C5_download_options_witness:
  "start_download env0 resolved_state = Inr downloading_state \<and>
   threads_started downloading_state = Suc (threads_started resolved_state) \<and>
   download_thread downloading_state =
     Some (''https://youtu.be/abc'', ''/home/u/Downloads'', muxed_opts) \<and>
   format muxed_opts = Some ''22+140/best'' \<and> merge_output_format muxed_opts = Some ''mp4'' \<and>
   start_download env0 audio_mode_state = Inr audio_downloading_state \<and>
   threads_started audio_downloading_state = Suc (threads_started audio_mode_state) \<and>
   download_thread audio_downloading_state =
     Some (''https://youtu.be/abc'', ''/home/u/Downloads'', audio_opts) \<and>
   format audio_opts = Some ''140'' \<and>
   postprocessors audio_opts = Some [\<lparr>key = ''FFmpegExtractAudio'',
     preferredcodec = ''mp3'', preferredquality = ''192''\<rparr>]"
proof -
  have t: "threads_started downloading_state = Suc (threads_started resolved_state)"
    by (simp add: downloading_state_def resolved_state_def)
  have d: "download_thread downloading_state =
      Some (''https://youtu.be/abc'', ''/home/u/Downloads'', muxed_opts)"
    by (simp add: downloading_state_def)
  have r: "radio_video resolved_state" by (simp add: resolved_state_def)
  from C5_download_options [OF start_download_resolved t] d r
  have m: "format muxed_opts = Some ''22+140/best'' \<and> merge_output_format muxed_opts = Some ''mp4''"
    by (auto simp: resolved_state_def py_index_def entry_id_def)
  have t': "threads_started audio_downloading_state = Suc (threads_started audio_mode_state)"
    by (simp add: audio_downloading_state_def audio_mode_state_def resolved_state_def)
  have d': "download_thread audio_downloading_state =
      Some (''https://youtu.be/abc'', ''/home/u/Downloads'', audio_opts)"
    by (simp add: audio_downloading_state_def)
  have r': "\<not> radio_video audio_mode_state" by (simp add: audio_mode_state_def)
  from C5_download_options [OF start_download_audio_mode t'] d' r'
  have a: "format audio_opts = Some ''140'' \<and>
     postprocessors audio_opts = Some [\<lparr>key = ''FFmpegExtractAudio'',
       preferredcodec = ''mp3'', preferredquality = ''192''\<rparr>]"
    by (auto simp: audio_mode_state_def resolved_state_def py_index_def entry_id_def)
  from start_download_resolved t d m start_download_audio_mode t' d' a show ?thesis by simp
qed

text \<open>
  C8, as the code has it. In a window reached by any events: while a download is in
  flight, a click on the download button changes nothing (the button is disabled: no
  thread is started, no message box is shown); while a resolve is in flight, the click
  runs \<^verbatim>\<open>start_download\<close>, which shows one warning and changes nothing else.
\<close>

theorem C8_request_while_in_flight:
  assumes "steps e (init e) evs = Inr st"
  shows "(download_in_flight st \<longrightarrow> step e st ClickDownload = Inr st) \<and>
         (resolve_in_flight st \<longrightarrow>
            (\<exists>m. step e st ClickDownload =
                   Inr (st\<lparr>dialogs := dialogs st @ [Warning ''Error'' m]\<rparr>)))"
proof -
  from assms have i: "inv st" by (rule reachable_inv)
  have 1: "step e st ClickDownload = Inr st" if "download_in_flight st"
    using that i by (auto simp: step_def inv_def)
  have 2: "\<exists>m. step e st ClickDownload = Inr (st\<lparr>dialogs := dialogs st @ [Warning ''Error'' m]\<rparr>)"
    if r: "resolve_in_flight st"
  proof -
    from i r have b: "download_btn st" and rows: "video_row st < 0" "audio_row st < 0"
      by (auto simp: inv_def)
    from start_download_cases [OF i, of e] rows
    have "\<exists>m. start_download e st = Inr (warning st ''Error'' m)" by auto
    with b show ?thesis by (simp add: step_def warning_def)
  qed
  from 1 2 show ?thesis by blast
qed

theorem C8_request_while_in_flight_witness:
  "steps env0 (init env0) downloading_events = Inr downloading_state \<and>
   download_in_flight downloading_state \<and>
   step env0 downloading_state ClickDownload = Inr downloading_state \<and>
   steps env0 (init env0) resolving_events = Inr resolving_state \<and>
   resolve_in_flight resolving_state \<and>
   step env0 resolving_state ClickDownload =
     Inr (resolving_state\<lparr>dialogs := [Warning ''Error'' ''Please select a video quality'']\<rparr>)"
proof -
  have d: "download_in_flight downloading_state" by (simp add: downloading_state_def)
  have r: "resolve_in_flight resolving_state" by (simp add: resolving_state_def)
  from C8_request_while_in_flight [OF downloading_reached] d
  have 1: "step env0 downloading_state ClickDownload = Inr downloading_state" by blast
  from C8_request_while_in_flight [OF resolving_reached] r
  obtain m where
    "step env0 resolving_state ClickDownload =
       Inr (resolving_state\<lparr>dialogs := dialogs resolving_state @ [Warning ''Error'' m]\<rparr>)"
    by blast
  moreover have "step env0 resolving_state ClickDownload =
      Inr (warning resolving_state ''Error'' ''Please select a video quality'')"
    by (simp add: step_def resolving_state_def start_download_def strip_def is_space_def
        env0_def Let_def)
  ultimately have 2: "step env0 resolving_state ClickDownload =
     Inr (resolving_state\<lparr>dialogs := [Warning ''Error'' ''Please select a video quality'']\<rparr>)"
    by (simp add: warning_def resolving_state_def)
  from downloading_reached d 1 resolving_reached r 2 show ?thesis by simp
qed

theorem C8_no_validation_failure_counterexample:
  "steps env0 (init env0) downloading_events = Inr downloading_state \<and>
   download_in_flight downloading_state \<and>
   step env0 downloading_state ClickDownload = Inr downloading_state \<and>
   dialogs downloading_state = [] \<and>
   start_download env0 downloading_state = Inr (downloading_state\<lparr>threads_started := 3\<rparr>)"
proof -
  have 1: "download_in_flight downloading_state" "dialogs downloading_state = []"
    by (simp_all add: downloading_state_def resolved_state_def)
  have 2: "step env0 downloading_state ClickDownload = Inr downloading_state"
    by (simp add: step_def downloading_state_def)
  have 3: "start_download env0 downloading_state = Inr (downloading_state\<lparr>threads_started := 3\<rparr>)"
    by (simp add: resolved_state_def start_download_def strip_def is_space_def env0_def
        path_join_def py_index_def entry_id_def downloading_state_def muxed_opts_def Let_def)
  from downloading_reached 1 2 3 show ?thesis by simp
qed

lemma step_while_downloading:
  assumes "inv st" and "download_in_flight st" and "step e st ev = Inr st'"
  shows "self_video_formats st' = self_video_formats st \<and>
         self_audio_formats st' = self_audio_formats st \<and>
         video_list st' = video_list st \<and> audio_list st' = audio_list st \<and>
         (\<not> ends_download ev \<longrightarrow> download_in_flight st')"
proof -
  from assms(1,2) have off: "\<not> fetch_btn st" "\<not> download_btn st" "\<not> resolve_in_flight st"
    by (auto simp: inv_def)
  show ?thesis
  proof (cases ev)
    case (SelectVideoRow i)
    with assms(2,3) show ?thesis
      by (cases "i < length (video_list st)") (auto simp: step_def ends_download_def)
  next
    case (SelectAudioRow i)
    with assms(2,3) show ?thesis
      by (cases "i < length (audio_list st)") (auto simp: step_def ends_download_def)
  next
    case (ClickBrowse folder)
    with assms(2,3) show ?thesis
      by (cases "folder = []") (auto simp: step_def ends_download_def browse_folder_def)
  next
    case (DownloadSignal s)
    with assms(2,3) show ?thesis
      by (cases s)
         (auto simp: step_def ends_download_def on_download_progress_def on_download_finished_def
            on_download_error_def log_message_def Let_def)
  qed (use assms(2,3) off in \<open>auto simp: step_def ends_download_def\<close>)
qed

lemma steps_while_downloading:
  assumes "inv st" and "download_in_flight st"
    and "\<forall>ev \<in> set evs. \<not> ends_download ev" and "steps e st evs = Inr st'"
  shows "inv st' \<and> download_in_flight st' \<and>
         self_video_formats st' = self_video_formats st \<and>
         self_audio_formats st' = self_audio_formats st \<and>
         video_list st' = video_list st \<and> audio_list st' = audio_list st"
  using assms
proof (induction evs arbitrary: st)
  case Nil
  then show ?case by simp
next
  case (Cons ev evs)
  from Cons.prems(4) obtain st1 where
    1: "step e st ev = Inr st1" and 2: "steps e st1 evs = Inr st'"
    by (auto split: sum.splits)
  from step_while_downloading [OF Cons.prems(1,2) 1] Cons.prems(3)
  have k: "self_video_formats st1 = self_video_formats st"
    "self_audio_formats st1 = self_audio_formats st"
    "video_list st1 = video_list st" "audio_list st1 = audio_list st"
    "download_in_flight st1"
    by simp_all
  from Cons.prems(3) have "\<forall>ev \<in> set evs. \<not> ends_download ev" by simp
  from Cons.IH [OF inv_step [OF Cons.prems(1) 1] k(5) this 2] k show ?case by simp
qed

lemma accepted_click_keeps_formats:
  assumes "inv st" and "\<not> download_in_flight st"
    and "step e st ClickDownload = Inr st'" and "download_in_flight st'"
  shows "self_video_formats st' = self_video_formats st \<and>
         self_audio_formats st' = self_audio_formats st \<and>
         video_list st' = video_list st \<and> audio_list st' = audio_list st"
proof -
  from assms(1,2) have "download_btn st" by (auto simp: inv_def)
  with assms(3) have s: "start_download e st = Inr st'" by (simp add: step_def)
  from start_download_cases [OF assms(1), of e] s assms(2,4)
  have "started_download st st'" by (auto simp: warning_def)
  then show ?thesis by (auto simp: started_download_def)
qed

text \<open>
  C9. A download is started by a click in a window reached by any events; whatever
  arrives while it is in flight, once its \<^verbatim>\<open>error\<close> signal is handled the stored
  \<^verbatim>\<open>video_formats\<close> and \<^verbatim>\<open>audio_formats\<close> and the two lists on screen are what they
  were before the click, nothing is in flight and both buttons are enabled again.
\<close>

theorem C9_failure_keeps_formats:
  assumes "steps e (init e) evs0 = Inr st0" and "\<not> download_in_flight st0"
    and "step e st0 ClickDownload = Inr st1" and "download_in_flight st1"
    and "\<forall>ev \<in> set evs. \<not> ends_download ev"
    and "steps e st1 (evs @ [DownloadSignal (Failed m)]) = Inr st2"
  shows "self_video_formats st2 = self_video_formats st0 \<and>
         self_audio_formats st2 = self_audio_formats st0 \<and>
         video_list st2 = video_list st0 \<and> audio_list st2 = audio_list st0 \<and>
         \<not> download_in_flight st2 \<and> \<not> resolve_in_flight st2 \<and>
         fetch_btn st2 \<and> download_btn st2"
proof -
  from assms(1) have i0: "inv st0" by (rule reachable_inv)
  from inv_step [OF i0 assms(3)] have i1: "inv st1" .
  note a = accepted_click_keeps_formats [OF i0 assms(2,3,4)]
  from assms(6) obtain st where
    1: "steps e st1 evs = Inr st" and 2: "step e st (DownloadSignal (Failed m)) = Inr st2"
    by (auto simp: steps_append split: sum.splits)
  note b = steps_while_downloading [OF i1 assms(4,5) 1]
  from b have r: "\<not> resolve_in_flight st" by (auto simp: inv_def)
  from b 2 have "st2 = (on_download_error st m)\<lparr>download_in_flight := False\<rparr>"
    by (simp add: step_def)
  with a b r show ?thesis
    by (simp add: on_download_error_def log_message_def Let_def)
qed

theorem C9_failure_keeps_formats_witness:
  "steps env0 (init env0) resolved_events = Inr resolved_state \<and>
   \<not> download_in_flight resolved_state \<and>
   step env0 resolved_state ClickDownload = Inr downloading_state \<and>
   download_in_flight downloading_state \<and>
   \<not> ends_download (DownloadSignal (Progress ''Downloading...  50.0% at 1.00MiB/s'')) \<and>
   steps env0 downloading_state
     ([DownloadSignal (Progress ''Downloading...  50.0% at 1.00MiB/s'')] @
      [DownloadSignal (Failed ''Download failed: HTTP Error 403'')]) = Inr failed_state \<and>
   self_video_formats failed_state = self_video_formats resolved_state \<and>
   self_audio_formats failed_state = self_audio_formats resolved_state \<and>
   fetch_btn failed_state \<and> download_btn failed_state"
proof -
  have n: "\<not> download_in_flight resolved_state" by (simp add: resolved_state_def)
  have d: "download_in_flight downloading_state" by (simp add: downloading_state_def)
  have p: "\<forall>ev \<in> set [DownloadSignal (Progress ''Downloading...  50.0% at 1.00MiB/s'')].
             \<not> ends_download ev"
    by (simp add: ends_download_def)
  from C9_failure_keeps_formats [OF resolved_reached n downloading_step d p failed_reached]
    resolved_reached n downloading_step d p failed_reached
  show ?thesis by simp
qed


end
